theory Spec2Isabelle
  imports Main
begin

section \<open>Strings\<close>

text \<open>
  Python strings are modelled as \<^typ>\<open>string\<close>; a character is one code point of the
  Latin-1 range. The three string operations the program uses are \<^verbatim>\<open>str.strip()\<close>,
  \<^verbatim>\<open>str.lower()\<close> and the substring test \<^verbatim>\<open>a in b\<close>, next to
  \<^verbatim>\<open>str.split(" ", 1)[0]\<close>.
\<close>

definition is_space :: "char \<Rightarrow> bool" where
  \<comment> \<open>\<^verbatim>\<open>str.isspace()\<close> on one character; the same class as the regular expression \<^verbatim>\<open>\s\<close>.\<close>
  "is_space c \<longleftrightarrow> c \<in> set [CHR 0x09, CHR 0x0A, CHR 0x0B, CHR 0x0C, CHR 0x0D,
      CHR 0x1C, CHR 0x1D, CHR 0x1E, CHR 0x1F, CHR 0x20, CHR 0x85, CHR 0xA0]"

definition strip :: "string \<Rightarrow> string" where
  "strip s = rev (dropWhile is_space (rev (dropWhile is_space s)))"

definition lower_char :: "char \<Rightarrow> char" where
  "lower_char c =
     (let n = (of_char c :: nat)
      in if (65 \<le> n \<and> n \<le> 90) \<or> (192 \<le> n \<and> n \<le> 222 \<and> n \<noteq> 215)
         then char_of (n + 32) else c)"

definition lower :: "string \<Rightarrow> string" where
  "lower s = map lower_char s"

fun startswith :: "string \<Rightarrow> string \<Rightarrow> bool" where
  \<comment> \<open>\<open>startswith s p\<close>: the string \<open>s\<close> begins with \<open>p\<close>.\<close>
  "startswith s [] = True"
| "startswith [] (p # ps) = False"
| "startswith (c # cs) (p # ps) = (c = p \<and> startswith cs ps)"

fun contains :: "string \<Rightarrow> string \<Rightarrow> bool" where
  \<comment> \<open>\<open>contains s k\<close> is Python's \<^verbatim>\<open>k in s\<close>: a left-to-right search for \<open>k\<close>.\<close>
  "contains [] k = (k = [])"
| "contains (c # cs) k = (startswith (c # cs) k \<or> contains cs k)"

definition split_first :: "string \<Rightarrow> string" where
  \<comment> \<open>\<^verbatim>\<open>s.split(" ", 1)[0]\<close>: the text before the first space character, the whole
      string when there is none. The list that \<^verbatim>\<open>split\<close> returns is never empty.\<close>
  "split_first s = takeWhile (\<lambda>c. c \<noteq> CHR '' '') s"

section \<open>Exceptions and points in time\<close>

datatype exn =
    ValueError
  | IndexError
  | KeyError
  | FileNotFoundError
  | IsADirectoryError
  | PermissionError
  | OSError
  | PatternError  \<comment> \<open>\<^verbatim>\<open>re.error\<close>\<close>

record datetime =
  year :: int
  month :: int
  day :: int
  hour :: int
  minute :: int
  second :: int
  microsecond :: int

section \<open>The library routine \<^verbatim>\<open>datetime.strptime\<close>\<close>

text \<open>
  The program hands every candidate token to \<^verbatim>\<open>datetime.strptime\<close>. The functions of the
  program take that routine as their first argument \<open>sp\<close>, of type
  \<^typ>\<open>string \<Rightarrow> string \<Rightarrow> exn + datetime\<close> (data string first, format second, \<open>Inl\<close> the
  exception raised), so the general theorems hold for whatever the routine does.

  For evaluation on concrete lines, \<open>strptime\<close> below follows CPython's \<^verbatim>\<open>_strptime.py\<close>
  in the C locale for the directives of the program's default formats:
  \<^verbatim>\<open>%Y %m %d %H %M %S %f %a %b\<close> and \<^verbatim>\<open>%%\<close>. The format is turned into a regular
  expression (a run of whitespace becomes \<^verbatim>\<open>\s+\<close>, a directive becomes a named group, any
  other character stands for itself, compared without regard to case); the expression is
  matched at the start of the data by backtracking, the first match must cover the whole
  data, and the fields found must make a valid date. The closed theorems below evaluate
  \<open>strptime\<close> on formats of this fragment only; the other directives of the library
  (\<^verbatim>\<open>%y\<close>, \<^verbatim>\<open>%j\<close>, \<^verbatim>\<open>%z\<close>, ...) are not covered by it.
\<close>

datatype item = Lit char | Space | Dir char

definition directives :: "char list" where
  "directives = ''YmdHMSfab''"

fun pattern :: "string \<Rightarrow> exn + item list" where
  \<comment> \<open>\<^verbatim>\<open>TimeRE.pattern\<close>. A \<^verbatim>\<open>%\<close> at the end of the format is the library's IndexError and a
      \<^verbatim>\<open>%\<close> before a character that is no directive its KeyError; \<^verbatim>\<open>_strptime\<close> raises
      ValueError for both.\<close>
  "pattern [] = Inr []"
| "pattern (c # cs) =
     (if c = CHR ''%'' then
        (case cs of
           [] \<Rightarrow> Inl ValueError
         | d # ds \<Rightarrow>
             if d = CHR ''%'' then
               (case pattern ds of Inl e \<Rightarrow> Inl e | Inr its \<Rightarrow> Inr (Lit (CHR ''%'') # its))
             else if d \<in> set directives then
               (case pattern ds of Inl e \<Rightarrow> Inl e | Inr its \<Rightarrow> Inr (Dir d # its))
             else Inl ValueError)
      else if is_space c then
        (case pattern cs of
           Inl e \<Rightarrow> Inl e
         | Inr (Space # its) \<Rightarrow> Inr (Space # its)
         | Inr its \<Rightarrow> Inr (Space # its))
      else
        (case pattern cs of Inl e \<Rightarrow> Inl e | Inr its \<Rightarrow> Inr (Lit c # its)))"

definition is_digit :: "char \<Rightarrow> bool" where
  "is_digit c \<longleftrightarrow> c \<in> set ''0123456789''"

definition one_of :: "string \<Rightarrow> char \<Rightarrow> bool" where
  "one_of cs c \<longleftrightarrow> c \<in> set cs"

definition word_re :: "string \<Rightarrow> (char \<Rightarrow> bool) list" where
  \<comment> \<open>A name of the locale, matched without regard to case.\<close>
  "word_re w = map (\<lambda>x c. lower_char c = x) w"

definition a_weekday :: "string list" where
  "a_weekday = [''mon'', ''tue'', ''wed'', ''thu'', ''fri'', ''sat'', ''sun'']"

definition a_month :: "string list" where
  "a_month = [''jan'', ''feb'', ''mar'', ''apr'', ''may'', ''jun'',
              ''jul'', ''aug'', ''sep'', ''oct'', ''nov'', ''dec'']"

definition directive_re :: "char \<Rightarrow> (char \<Rightarrow> bool) list list" where
  \<comment> \<open>The alternatives of each directive's group, in the order the library lists them;
      an alternative is a sequence of character classes.\<close>
  "directive_re d =
     (if d = CHR ''Y'' then [[is_digit, is_digit, is_digit, is_digit]]
      else if d = CHR ''m'' then
        [[one_of ''1'', one_of ''012''], [one_of ''0'', one_of ''123456789''], [one_of ''123456789'']]
      else if d = CHR ''d'' then
        [[one_of ''3'', one_of ''01''], [one_of ''12'', is_digit], [one_of ''0'', one_of ''123456789''],
         [one_of ''123456789''], [one_of '' '', one_of ''123456789'']]
      else if d = CHR ''H'' then
        [[one_of ''2'', one_of ''0123''], [one_of ''01'', is_digit], [is_digit]]
      else if d = CHR ''M'' then
        [[one_of ''012345'', is_digit], [is_digit]]
      else if d = CHR ''S'' then
        [[one_of ''6'', one_of ''01''], [one_of ''012345'', is_digit], [is_digit]]
      else if d = CHR ''f'' then
        map (\<lambda>n. replicate n is_digit) [6, 5, 4, 3, 2, 1]
      else if d = CHR ''a'' then map word_re a_weekday
      else if d = CHR ''b'' then map word_re a_month
      else [])"

fun match_alt :: "(char \<Rightarrow> bool) list \<Rightarrow> string \<Rightarrow> (string \<times> string) option" where
  \<comment> \<open>One alternative against the start of the data: the text matched and the rest.\<close>
  "match_alt [] s = Some ([], s)"
| "match_alt (P # Ps) [] = None"
| "match_alt (P # Ps) (c # cs) =
     (if P c then map_option (\<lambda>(m, r). (c # m, r)) (match_alt Ps cs) else None)"

definition alternatives :: "char \<Rightarrow> string \<Rightarrow> (string \<times> string) list" where
  "alternatives d s = List.map_filter (\<lambda>alt. match_alt alt s) (directive_re d)"

fun match_items :: "item list \<Rightarrow> string \<Rightarrow> ((char \<times> string) list \<times> string) list" where
  \<comment> \<open>All the ways the expression matches a prefix of the data, in the order a backtracking
      matcher finds them: the groups found and the data left over. \<^verbatim>\<open>\s+\<close> is greedy.\<close>
  "match_items [] s = [([], s)]"
| "match_items (Lit c # its) s =
     (case s of
        [] \<Rightarrow> []
      | x # xs \<Rightarrow> if lower_char x = lower_char c then match_items its xs else [])"
| "match_items (Space # its) s =
     concat (map (\<lambda>k. match_items its (drop k s))
                 (rev [1 ..< Suc (length (takeWhile is_space s))]))"
| "match_items (Dir d # its) s =
     concat (map (\<lambda>(m, r). map (\<lambda>(fs, r'). ((d, m) # fs, r')) (match_items its r))
                 (alternatives d s))"

definition to_int :: "string \<Rightarrow> int" where
  \<comment> \<open>\<^verbatim>\<open>int(s)\<close> on the text of a numeric group (digits, after one space for \<^verbatim>\<open>%d\<close>).\<close>
  "to_int s = foldl (\<lambda>n c. 10 * n + (of_char c - 48)) 0 (filter is_digit s)"

fun index_of :: "string \<Rightarrow> string list \<Rightarrow> nat" where
  "index_of w [] = 0"
| "index_of w (x # xs) = (if w = x then 0 else Suc (index_of w xs))"

definition set_field :: "datetime \<Rightarrow> char \<times> string \<Rightarrow> datetime" where
  "set_field dt g =
     (case g of (d, m) \<Rightarrow>
        if d = CHR ''Y'' then dt\<lparr>year := to_int m\<rparr>
        else if d = CHR ''m'' then dt\<lparr>month := to_int m\<rparr>
        else if d = CHR ''b'' then dt\<lparr>month := int (Suc (index_of (lower m) a_month))\<rparr>
        else if d = CHR ''d'' then dt\<lparr>day := to_int m\<rparr>
        else if d = CHR ''H'' then dt\<lparr>hour := to_int m\<rparr>
        else if d = CHR ''M'' then dt\<lparr>minute := to_int m\<rparr>
        else if d = CHR ''S'' then dt\<lparr>second := to_int m\<rparr>
        else if d = CHR ''f'' then dt\<lparr>microsecond := to_int (m @ replicate (6 - length m) (CHR ''0''))\<rparr>
        else dt)"

definition is_leap :: "int \<Rightarrow> bool" where
  "is_leap y \<longleftrightarrow> y mod 4 = 0 \<and> (y mod 100 \<noteq> 0 \<or> y mod 400 = 0)"

definition days_in_month :: "int \<Rightarrow> int \<Rightarrow> int" where
  "days_in_month y m =
     (if m = 2 then (if is_leap y then 29 else 28)
      else if m \<in> set [4, 6, 9, 11] then 30 else 31)"

definition valid_datetime :: "datetime \<Rightarrow> bool" where
  \<comment> \<open>The checks of the \<^verbatim>\<open>datetime\<close> constructor.\<close>
  "valid_datetime dt \<longleftrightarrow>
     1 \<le> year dt \<and> year dt \<le> 9999 \<and> 1 \<le> month dt \<and> month dt \<le> 12 \<and>
     1 \<le> day dt \<and> day dt \<le> days_in_month (year dt) (month dt) \<and>
     hour dt \<le> 23 \<and> minute dt \<le> 59 \<and> second dt \<le> 59 \<and> microsecond dt \<le> 999999"

definition epoch :: datetime where
  \<comment> \<open>The fields a format does not mention.\<close>
  "epoch = \<lparr>year = 1900, month = 1, day = 1, hour = 0, minute = 0, second = 0, microsecond = 0\<rparr>"

definition strptime :: "string \<Rightarrow> string \<Rightarrow> exn + datetime" where
  "strptime data_string format =
     (case pattern format of
        Inl e \<Rightarrow> Inl e
      | Inr its \<Rightarrow>
          if \<not> distinct (concat (map (\<lambda>i. case i of Dir d \<Rightarrow> [d] | _ \<Rightarrow> []) its))
          then Inl PatternError
          else
            (case match_items its data_string of
               [] \<Rightarrow> Inl ValueError
             | (found, rest) # _ \<Rightarrow>
                 if rest \<noteq> [] then Inl ValueError
                 else
                   (let dt = foldl set_field epoch found
                    in if valid_datetime dt then Inr dt else Inl ValueError)))"

section \<open>The program\<close>

definition TIMESTAMP_FORMATS :: "string list" where
  "TIMESTAMP_FORMATS =
     [''%Y-%m-%d %H:%M:%S'',
      ''%Y-%m-%d %H:%M:%S.%f'',
      ''%m/%d/%Y %H:%M:%S'',
      ''%m/%d/%Y %H:%M:%S.%f'',
      ''%Y/%m/%d %H:%M:%S'',
      ''%Y/%m/%d %H:%M:%S.%f'',
      ''%a %b %d %H:%M:%S %Y'',
      ''%a %b %d %H:%M:%S.%f %Y'']"

definition EVENT_PRIORITIES :: "(string \<times> nat) list" where
  "EVENT_PRIORITIES =
     [(''critical'', 1), (''high'', 2), (''medium'', 3), (''low'', 4), (''info'', 5)]"

fun parse_log_entry ::
  "(string \<Rightarrow> string \<Rightarrow> exn + datetime) \<Rightarrow> string \<Rightarrow> string list
     \<Rightarrow> exn + (datetime option \<times> string)" where
  \<comment> \<open>The loop over the formats. ValueError and IndexError are the two exceptions the loop
      catches; any other exception leaves the function.\<close>
  "parse_log_entry sp log_entry [] = Inr (None, log_entry)"
| "parse_log_entry sp log_entry (timestamp_format # formats) =
     (let timestamp_str = split_first log_entry
      in case sp timestamp_str timestamp_format of
           Inr dt \<Rightarrow> Inr (Some dt, strip (drop (length timestamp_str) log_entry))
         | Inl e \<Rightarrow>
             if e = ValueError \<or> e = IndexError
             then parse_log_entry sp log_entry formats
             else Inl e)"

record event =
  timestamp :: datetime
  description :: string
  source :: string

text \<open>
  What the program writes to the log, one constructor for each \<^verbatim>\<open>logging\<close> call of the
  source; the arguments are the values the message is formatted from.
\<close>

datatype log_record =
    Warning_unparsed string string  \<comment> \<open>"Could not parse timestamp in line: ... from ..."\<close>
  | Error_not_found string          \<comment> \<open>"Log file not found: ..."\<close>
  | Error_processing string exn     \<comment> \<open>"Error processing log file ...: ..."\<close>
  | Error_invalid_path string       \<comment> \<open>"Invalid log file path: ..."\<close>
  | Info_saved string               \<comment> \<open>"Timeline generated successfully and saved to: ..."\<close>
  | Error_csv exn                   \<comment> \<open>"Error writing to CSV file: ..."\<close>
  | Warning_no_events               \<comment> \<open>"No events found to generate timeline."\<close>

text \<open>
  The file system the program runs on. A regular file is given by what reading it yields:
  an exception when it is opened, or its lines (as the iteration over the file yields
  them) followed by an exception if the reading breaks off after them.
\<close>

datatype file_obj =
    Absent
  | Directory
  | Regular "exn option" "string list" "exn option"

record world =
  files :: "string \<Rightarrow> file_obj"
  write_fault :: "string \<Rightarrow> exn option"  \<comment> \<open>the exception, if any, that writing to a path raises\<close>

definition isfile :: "world \<Rightarrow> string \<Rightarrow> bool" where
  \<comment> \<open>\<^verbatim>\<open>os.path.isfile\<close>\<close>
  "isfile w p = (case files w p of Regular _ _ _ \<Rightarrow> True | _ \<Rightarrow> False)"

definition open_file :: "world \<Rightarrow> string \<Rightarrow> exn + (string list \<times> exn option)" where
  \<comment> \<open>\<^verbatim>\<open>open(path, "r", ...)\<close>: the lines to come and the fault after them.\<close>
  "open_file w p =
     (case files w p of
        Absent \<Rightarrow> Inl FileNotFoundError
      | Directory \<Rightarrow> Inl IsADirectoryError
      | Regular (Some e) ls fault \<Rightarrow> Inl e
      | Regular None ls fault \<Rightarrow> Inr (ls, fault))"

text \<open>The effects of a run: the log, the paths passed to \<^verbatim>\<open>open\<close>, the table written
  (path, header flag, rows) and the exception, if any, that ended the run.\<close>

record run =
  logged :: "log_record list"
  opened :: "string list"
  written :: "(string \<times> bool \<times> event list) option"
  uncaught :: "exn option"

definition log :: "log_record \<Rightarrow> run \<Rightarrow> run" where
  "log r st = st\<lparr>logged := logged st @ [r]\<rparr>"

fun read_lines ::
  "(string \<Rightarrow> string \<Rightarrow> exn + datetime) \<Rightarrow> string \<Rightarrow> string list \<Rightarrow> string list option
     \<Rightarrow> string list \<Rightarrow> event list \<times> run \<Rightarrow> exn option \<times> event list \<times> run" where
  \<comment> \<open>The body of \<^verbatim>\<open>for line in f\<close> in \<^verbatim>\<open>process_log_file\<close>, over the lines the file
      yields; the first component is the exception that ended the loop. A \<^verbatim>\<open>datetime\<close> is
      always true, so \<^verbatim>\<open>if dt\<close> tests for \<^verbatim>\<open>None\<close>.\<close>
  "read_lines sp log_file_path timestamp_formats keywords [] (events, st) = (None, events, st)"
| "read_lines sp log_file_path timestamp_formats keywords (raw # rest) (events, st) =
     (let line = strip raw
      in if line = [] then
           read_lines sp log_file_path timestamp_formats keywords rest (events, st)
         else
           (case parse_log_entry sp line timestamp_formats of
              Inl e \<Rightarrow> (Some e, events, st)
            | Inr (Some dt, desc) \<Rightarrow>
                if (case keywords of
                      None \<Rightarrow> True
                    | Some ks \<Rightarrow> list_ex (\<lambda>keyword. contains (lower desc) (lower keyword)) ks)
                then read_lines sp log_file_path timestamp_formats keywords rest
                       (events @ [\<lparr>timestamp = dt, description = desc,
                                   source = log_file_path\<rparr>], st)
                else read_lines sp log_file_path timestamp_formats keywords rest (events, st)
            | Inr (None, desc) \<Rightarrow>
                read_lines sp log_file_path timestamp_formats keywords rest
                  (events, log (Warning_unparsed line log_file_path) st)))"

definition handler :: "string \<Rightarrow> exn \<Rightarrow> run \<Rightarrow> run" where
  \<comment> \<open>The two \<^verbatim>\<open>except\<close> clauses of \<^verbatim>\<open>process_log_file\<close>.\<close>
  "handler log_file_path e st =
     (if e = FileNotFoundError then log (Error_not_found log_file_path) st
      else log (Error_processing log_file_path e) st)"

definition process_log_file ::
  "(string \<Rightarrow> string \<Rightarrow> exn + datetime) \<Rightarrow> world \<Rightarrow> string \<Rightarrow> string list
     \<Rightarrow> string list option \<Rightarrow> run \<Rightarrow> event list \<times> run" where
  \<comment> \<open>\<^verbatim>\<open>events\<close> is returned after the \<^verbatim>\<open>try\<close> statement, whichever way that ended.\<close>
  "process_log_file sp w log_file_path timestamp_formats keywords st =
     (let st1 = st\<lparr>opened := opened st @ [log_file_path]\<rparr>
      in case open_file w log_file_path of
           Inl e \<Rightarrow> ([], handler log_file_path e st1)
         | Inr (ls, fault) \<Rightarrow>
             (case read_lines sp log_file_path timestamp_formats keywords ls ([], st1) of
                (Some e, events, st2) \<Rightarrow> (events, handler log_file_path e st2)
              | (None, events, st2) \<Rightarrow>
                  (case fault of
                     Some e \<Rightarrow> (events, handler log_file_path e st2)
                   | None \<Rightarrow> (events, st2))))"

fun process_all ::
  "(string \<Rightarrow> string \<Rightarrow> exn + datetime) \<Rightarrow> world \<Rightarrow> string list \<Rightarrow> string list option
     \<Rightarrow> string list \<Rightarrow> event list \<times> run \<Rightarrow> event list \<times> run" where
  \<comment> \<open>The loop of \<^verbatim>\<open>main\<close> that extends \<^verbatim>\<open>all_events\<close> file by file.\<close>
  "process_all sp w timestamp_formats keywords [] (all_events, st) = (all_events, st)"
| "process_all sp w timestamp_formats keywords (log_file # rest) (all_events, st) =
     (case process_log_file sp w log_file timestamp_formats keywords st of
        (events, st') \<Rightarrow>
          process_all sp w timestamp_formats keywords rest (all_events @ events, st'))"

record args =
  log_files :: "string list"
  output_file :: string  \<comment> \<open>\<^verbatim>\<open>args.output\<close>\<close>
  timestamp_format :: "string list option"
  priority :: string
  keywords_opt :: "string list option"  \<comment> \<open>\<^verbatim>\<open>args.keywords\<close>\<close>
  verbose :: bool
  no_header :: bool

definition start :: run where
  "start = \<lparr>logged = [], opened = [], written = None, uncaught = None\<rparr>"

definition main ::
  "(string \<Rightarrow> string \<Rightarrow> exn + datetime) \<Rightarrow> (event list \<Rightarrow> event list) \<Rightarrow> world \<Rightarrow> args \<Rightarrow> run" where
  \<comment> \<open>\<^verbatim>\<open>main\<close> after \<^verbatim>\<open>parse_args\<close>. \<open>sort_values\<close> is the library's
      \<^verbatim>\<open>DataFrame.sort_values(by="timestamp")\<close> on the rows. The data frame is empty exactly
      when \<^verbatim>\<open>all_events\<close> is. \<^verbatim>\<open>verbose\<close> changes the level of the logger only, and no
      message of the program is below the default level.\<close>
  "main sp sort_values w a =
     (case find (\<lambda>log_file. \<not> isfile w log_file) (log_files a) of
        Some log_file \<Rightarrow> log (Error_invalid_path log_file) start
      | None \<Rightarrow>
          (let timestamp_formats =
                 (case timestamp_format a of
                    None \<Rightarrow> TIMESTAMP_FORMATS
                  | Some [] \<Rightarrow> TIMESTAMP_FORMATS
                  | Some fs \<Rightarrow> fs)
           in case map_of EVENT_PRIORITIES (priority a) of
                None \<Rightarrow> start\<lparr>uncaught := Some KeyError\<rparr>
              | Some min_priority_level \<Rightarrow>
                  (case process_all sp w timestamp_formats (keywords_opt a) (log_files a) ([], start) of
                     (all_events, st) \<Rightarrow>
                       if all_events = [] then log Warning_no_events st
                       else
                         (let df = sort_values all_events
                          in case write_fault w (output_file a) of
                               Some e \<Rightarrow> log (Error_csv e) st
                             | None \<Rightarrow>
                                 log (Info_saved (output_file a))
                                   (st\<lparr>written := Some (output_file a, \<not> no_header a, df)\<rparr>)))))"

definition exit_status :: "run \<Rightarrow> nat" where
  \<comment> \<open>The status of the process: 0 when \<^verbatim>\<open>main\<close> returns, 1 when an exception ends it.\<close>
  "exit_status r = (if uncaught r = None then 0 else 1)"

definition recognized ::
  "(string \<Rightarrow> string \<Rightarrow> exn + datetime) \<Rightarrow> string list \<Rightarrow> string \<Rightarrow> bool" where
  \<comment> \<open>A raw line of a file on which the parser recognizes a timestamp.\<close>
  "recognized sp fmts raw \<longleftrightarrow>
     strip raw \<noteq> [] \<and>
     (case parse_log_entry sp (strip raw) fmts of Inr (Some dt, d) \<Rightarrow> True | _ \<Rightarrow> False)"

section \<open>Example inputs\<close>

text \<open>
  The closed examples below run the program on a small file system. They need one function
  for \<open>sort_values\<close>; \<open>sort_by_timestamp\<close> is an insertion sort on the timestamp. Nothing
  is proved from the order it gives to rows of equal timestamp.
\<close>

definition datetime_key :: "datetime \<Rightarrow> int" where
  "datetime_key dt =
     (((((year dt * 13 + month dt) * 32 + day dt) * 24 + hour dt) * 60 + minute dt) * 62
        + second dt) * 1000000 + microsecond dt"

definition sort_by_timestamp :: "event list \<Rightarrow> event list" where
  "sort_by_timestamp rows = sort_key (\<lambda>e. datetime_key (timestamp e)) rows"

definition demo_world :: world where
  "demo_world =
     \<lparr>files = (\<lambda>p. if p = ''a.log'' then
                       Regular None [''2024-01-15 boot'', ''garbage line''] None
                     else if p = ''b.log'' then
                       Regular None [''2024-01-16 disk ok''] (Some OSError)
                     else if p = ''c.log'' then
                       Regular (Some PermissionError) [] None
                     else Absent),
      write_fault = (\<lambda>p. None)\<rparr>"

definition demo_args :: args where
  "demo_args =
     \<lparr>log_files = [''a.log'', ''b.log''], output_file = ''timeline.csv'',
      timestamp_format = Some [''%Y-%m-%d''], priority = ''info'', keywords_opt = None,
      verbose = False, no_header = False\<rparr>"

section \<open>Substring search\<close>

lemma startswith_iff: "startswith s p \<longleftrightarrow> (\<exists>ss. s = p @ ss)"
  by (induction s p rule: startswith.induct) auto

lemma contains_iff: "contains s k \<longleftrightarrow> (\<exists>ps ss. s = ps @ k @ ss)"
proof (induction s)
  case Nil
  then show ?case by auto
next
  case (Cons c cs)
  show ?case
  proof
    assume "contains (c # cs) k"
    then consider "startswith (c # cs) k" | "contains cs k" by auto
    then show "\<exists>ps ss. c # cs = ps @ k @ ss"
    proof cases
      case 1
      then obtain ss where "c # cs = k @ ss" by (auto simp: startswith_iff)
      then have "c # cs = [] @ k @ ss" by simp
      then show ?thesis by blast
    next
      case 2
      then obtain ps ss where "cs = ps @ k @ ss" using Cons.IH by blast
      then have "c # cs = (c # ps) @ k @ ss" by simp
      then show ?thesis by blast
    qed
  next
    assume "\<exists>ps ss. c # cs = ps @ k @ ss"
    then obtain ps ss where eq: "c # cs = ps @ k @ ss" by blast
    show "contains (c # cs) k"
    proof (cases ps)
      case Nil
      with eq have "startswith (c # cs) k" by (auto simp: startswith_iff)
      then show ?thesis by simp
    next
      case (Cons a ps')
      with eq have "cs = ps' @ k @ ss" by simp
      then have "contains cs k" using Cons.IH by blast
      then show ?thesis by simp
    qed
  qed
qed

section \<open>The line parser\<close>

lemma parse_skips_failures:
  "\<forall>g\<in>set pre. sp (split_first L) g = Inl ValueError \<or> sp (split_first L) g = Inl IndexError
   \<Longrightarrow> parse_log_entry sp L (pre @ G) = parse_log_entry sp L G"
  by (induction pre) (auto simp: Let_def)

lemma parse_all_fail:
  "\<forall>g\<in>set G. sp (split_first L) g = Inl ValueError \<or> sp (split_first L) g = Inl IndexError
   \<Longrightarrow> parse_log_entry sp L G = Inr (None, L)"
  using parse_skips_failures[of G sp L "[]"] by simp

lemma split_first_no_space: "CHR '' '' \<notin> set L \<Longrightarrow> split_first L = L"
  by (auto simp: split_first_def)

text \<open>
  Every default format holds a space, which the library turns into \<^verbatim>\<open>\s+\<close>; a token
  without a whitespace character cannot match it.
\<close>

lemma match_alt_append: "match_alt Ps s = Some (m, r) \<Longrightarrow> s = m @ r"
  by (induction Ps s arbitrary: m r rule: match_alt.induct) (auto split: if_splits)

lemma alternatives_append: "(m, r) \<in> set (alternatives d s) \<Longrightarrow> s = m @ r"
  by (auto simp: alternatives_def List.map_filter_def dest: match_alt_append)

lemma match_items_needs_space:
  "Space \<in> set its \<Longrightarrow> \<forall>c\<in>set s. \<not> is_space c \<Longrightarrow> match_items its s = []"
proof (induction its s rule: match_items.induct)
  case (1 s)
  then show ?case by simp
next
  case (2 c its s)
  then show ?case by (cases s) auto
next
  case (3 its s)
  then have "takeWhile is_space s = []" by (cases s) auto
  then show ?case by simp
next
  case (4 d its s)
  have "match_items its r = []" if "(m, r) \<in> set (alternatives d s)" for m r
  proof -
    have "s = m @ r" using that by (rule alternatives_append)
    then have "\<forall>c\<in>set r. \<not> is_space c" using "4.prems"(2) by auto
    moreover have "Space \<in> set its" using "4.prems"(1) by simp
    ultimately show ?thesis using "4.IH"[OF that refl] by simp
  qed
  then show ?case by auto
qed

lemma default_patterns:
  "list_all (\<lambda>f. case pattern f of
                   Inl e \<Rightarrow> False
                 | Inr its \<Rightarrow> Space \<in> set its
                     \<and> distinct (concat (map (\<lambda>i. case i of Dir d \<Rightarrow> [d] | _ \<Rightarrow> []) its)))
     TIMESTAMP_FORMATS"
  by code_simp

lemma strptime_default_needs_space:
  assumes "f \<in> set TIMESTAMP_FORMATS" and "\<forall>c\<in>set T. \<not> is_space c"
  shows "strptime T f = Inl ValueError"
proof -
  from default_patterns assms(1)
  have "case pattern f of
          Inl e \<Rightarrow> False
        | Inr its \<Rightarrow> Space \<in> set its
            \<and> distinct (concat (map (\<lambda>i. case i of Dir d \<Rightarrow> [d] | _ \<Rightarrow> []) its))"
    by (simp add: list_all_iff)
  then obtain its where its: "pattern f = Inr its" "Space \<in> set its"
      "distinct (concat (map (\<lambda>i. case i of Dir d \<Rightarrow> [d] | _ \<Rightarrow> []) its))"
    by (auto split: sum.splits)
  have "match_items its T = []"
    using its(2) assms(2) by (rule match_items_needs_space)
  then show ?thesis using its by (simp add: strptime_def)
qed

lemma parse_default_needs_space:
  assumes "\<forall>c\<in>set (split_first L). \<not> is_space c"
  shows "parse_log_entry strptime L TIMESTAMP_FORMATS = Inr (None, L)"
  using assms by (intro parse_all_fail) (simp add: strptime_default_needs_space)

text \<open>
  C1. The line of scenario 1 under the default formats. The candidate token is the text
  before the first space, \<^verbatim>\<open>2024-01-15\<close>; every default format asks for a time of day
  after whitespace, so none of them parses the token. \<open>parse_log_entry\<close> returns no
  timestamp and the whole line, and the file loop logs a warning and keeps no event.
\<close>

theorem scenario_1_default_formats:
  "split_first ''2024-01-15 10:30:00 Disk failure detected'' = ''2024-01-15''
   \<and> parse_log_entry strptime ''2024-01-15 10:30:00 Disk failure detected'' TIMESTAMP_FORMATS
       = Inr (None, ''2024-01-15 10:30:00 Disk failure detected'')
   \<and> read_lines strptime ''a.log'' TIMESTAMP_FORMATS None
         [''2024-01-15 10:30:00 Disk failure detected''] ([], start)
       = (None, [],
          log (Warning_unparsed ''2024-01-15 10:30:00 Disk failure detected'' ''a.log'') start)"
  by code_simp

text \<open>
  C2, as amended. Let \<open>T\<close> be the candidate token of the line. If every format listed before
  \<open>f\<close> fails on \<open>T\<close> with ValueError (or IndexError) and \<open>f\<close> parses \<open>T\<close>, the result is the
  parse of \<open>f\<close>, whatever the formats after \<open>f\<close> would give; if every format of the list
  fails so, the result is "no timestamp" with the whole line. An exception of any other
  class, raised by the format \<open>f\<close> after such failures, is not caught by the loop: it is
  the outcome of \<open>parse_log_entry\<close>, and the formats after \<open>f\<close> are not tried.
\<close>

theorem first_match_wins:
  "((\<forall>g\<in>set pre. sp (split_first L) g = Inl ValueError \<or> sp (split_first L) g = Inl IndexError)
      \<and> sp (split_first L) f = Inr dt
      \<longrightarrow> parse_log_entry sp L (pre @ f # post)
            = Inr (Some dt, strip (drop (length (split_first L)) L)))
   \<and> ((\<forall>g\<in>set G. sp (split_first L) g = Inl ValueError \<or> sp (split_first L) g = Inl IndexError)
      \<longrightarrow> parse_log_entry sp L G = Inr (None, L))
   \<and> ((\<forall>g\<in>set pre. sp (split_first L) g = Inl ValueError \<or> sp (split_first L) g = Inl IndexError)
      \<and> sp (split_first L) f = Inl e \<and> e \<noteq> ValueError \<and> e \<noteq> IndexError
      \<longrightarrow> parse_log_entry sp L (pre @ f # post) = Inl e)"
proof (intro conjI impI)
  assume a: "(\<forall>g\<in>set pre. sp (split_first L) g = Inl ValueError
                \<or> sp (split_first L) g = Inl IndexError) \<and> sp (split_first L) f = Inr dt"
  then have "parse_log_entry sp L (pre @ f # post) = parse_log_entry sp L (f # post)"
    by (intro parse_skips_failures) simp
  then show "parse_log_entry sp L (pre @ f # post)
               = Inr (Some dt, strip (drop (length (split_first L)) L))"
    using a by (simp add: Let_def)
next
  assume "\<forall>g\<in>set G. sp (split_first L) g = Inl ValueError \<or> sp (split_first L) g = Inl IndexError"
  then show "parse_log_entry sp L G = Inr (None, L)"
    by (rule parse_all_fail)
next
  assume a: "(\<forall>g\<in>set pre. sp (split_first L) g = Inl ValueError
                \<or> sp (split_first L) g = Inl IndexError)
             \<and> sp (split_first L) f = Inl e \<and> e \<noteq> ValueError \<and> e \<noteq> IndexError"
  then have "parse_log_entry sp L (pre @ f # post) = parse_log_entry sp L (f # post)"
    by (intro parse_skips_failures) simp
  then show "parse_log_entry sp L (pre @ f # post) = Inl e"
    using a by (simp add: Let_def)
qed

theorem first_match_wins_witness:
  "strptime (split_first ''2024 boot'') ''%Y-%m-%d'' = Inl ValueError
   \<and> strptime (split_first ''2024 boot'') ''%m/%d/%Y'' = Inl ValueError
   \<and> strptime (split_first ''2024 boot'') ''%Y''
       = Inr \<lparr>year = 2024, month = 1, day = 1, hour = 0, minute = 0, second = 0, microsecond = 0\<rparr>
   \<and> strptime (split_first ''2024 boot'') ''%H%M''
       = Inr \<lparr>year = 1900, month = 1, day = 1, hour = 20, minute = 24, second = 0, microsecond = 0\<rparr>
   \<and> parse_log_entry strptime ''2024 boot'' [''%Y-%m-%d'', ''%Y'', ''%H%M'']
       = Inr (Some \<lparr>year = 2024, month = 1, day = 1, hour = 0, minute = 0, second = 0,
                     microsecond = 0\<rparr>, ''boot'')
   \<and> parse_log_entry strptime ''2024 boot'' [''%Y-%m-%d'', ''%m/%d/%Y''] = Inr (None, ''2024 boot'')
   \<and> strptime (split_first ''2024 boot'') ''%Y%Y'' = Inl PatternError
   \<and> parse_log_entry strptime ''2024 boot'' [''%Y-%m-%d'', ''%Y%Y'', ''%Y''] = Inl PatternError"
proof -
  have f1: "strptime (split_first ''2024 boot'') ''%Y-%m-%d'' = Inl ValueError"
    by code_simp
  have f2: "strptime (split_first ''2024 boot'') ''%m/%d/%Y'' = Inl ValueError"
    by code_simp
  have h1: "\<forall>g\<in>set [''%Y-%m-%d'']. strptime (split_first ''2024 boot'') g = Inl ValueError
        \<or> strptime (split_first ''2024 boot'') g = Inl IndexError"
    using f1 by simp
  have h2: "strptime (split_first ''2024 boot'') ''%Y''
       = Inr \<lparr>year = 2024, month = 1, day = 1, hour = 0, minute = 0, second = 0, microsecond = 0\<rparr>"
    by code_simp
  have h3: "strptime (split_first ''2024 boot'') ''%H%M''
       = Inr \<lparr>year = 1900, month = 1, day = 1, hour = 20, minute = 24, second = 0, microsecond = 0\<rparr>"
    by code_simp
  have h4: "\<forall>g\<in>set [''%Y-%m-%d'', ''%m/%d/%Y'']. strptime (split_first ''2024 boot'') g = Inl ValueError
        \<or> strptime (split_first ''2024 boot'') g = Inl IndexError"
    using f1 f2 by simp
  have h5: "strptime (split_first ''2024 boot'') ''%Y%Y'' = Inl PatternError"
    by code_simp
  have r: "strip (drop (length (split_first ''2024 boot'')) ''2024 boot'') = ''boot''"
    by code_simp
  have c1: "parse_log_entry strptime ''2024 boot'' ([''%Y-%m-%d''] @ ''%Y'' # [''%H%M''])
       = Inr (Some \<lparr>year = 2024, month = 1, day = 1, hour = 0, minute = 0, second = 0,
                     microsecond = 0\<rparr>, strip (drop (length (split_first ''2024 boot'')) ''2024 boot''))"
    using h1 h2
      first_match_wins[where sp = strptime and L = "''2024 boot''" and pre = "[''%Y-%m-%d'']"
        and f = "''%Y''" and post = "[''%H%M'']"
        and dt = "\<lparr>year = 2024, month = 1, day = 1, hour = 0, minute = 0, second = 0,
                    microsecond = 0\<rparr>"]
    by blast
  have c2: "parse_log_entry strptime ''2024 boot'' [''%Y-%m-%d'', ''%m/%d/%Y''] = Inr (None, ''2024 boot'')"
    using h4
      first_match_wins[where sp = strptime and L = "''2024 boot''"
        and G = "[''%Y-%m-%d'', ''%m/%d/%Y'']"]
    by blast
  have c3: "parse_log_entry strptime ''2024 boot'' ([''%Y-%m-%d''] @ ''%Y%Y'' # [''%Y'']) = Inl PatternError"
    using h1 h5
      first_match_wins[where sp = strptime and L = "''2024 boot''" and pre = "[''%Y-%m-%d'']"
        and f = "''%Y%Y''" and post = "[''%Y'']" and e = PatternError]
    by blast
  show ?thesis using f1 f2 h2 h3 h5 r c1 c2 c3 by simp
qed

theorem first_match_wins_counterexample:
  "strptime (split_first ''2024 boot'') ''%Y%Y'' = Inl PatternError
   \<and> strptime (split_first ''2024 boot'') ''%Y''
       = Inr \<lparr>year = 2024, month = 1, day = 1, hour = 0, minute = 0, second = 0, microsecond = 0\<rparr>
   \<and> parse_log_entry strptime ''2024 boot'' [''%Y%Y'', ''%Y''] = Inl PatternError"
  by code_simp

text \<open>
  C4, as amended. Let the line \<open>L\<close> hold no space, so that the candidate token is \<open>L\<close>
  itself. If every format of the list fails on \<open>L\<close> with ValueError (or IndexError), the
  result is "no timestamp" with description \<open>L\<close>. If, after formats that fail so, a format
  parses the whole of \<open>L\<close>, the result is that timestamp and an empty description. Under
  the default formats a line without any whitespace always gives "no timestamp" and \<open>L\<close>.
\<close>

theorem single_word_line:
  assumes "CHR '' '' \<notin> set L"
  shows "((\<forall>g\<in>set G. sp L g = Inl ValueError \<or> sp L g = Inl IndexError)
            \<longrightarrow> parse_log_entry sp L G = Inr (None, L))
       \<and> ((\<forall>g\<in>set pre. sp L g = Inl ValueError \<or> sp L g = Inl IndexError) \<and> sp L f = Inr dt
            \<longrightarrow> parse_log_entry sp L (pre @ f # post) = Inr (Some dt, []))
       \<and> ((\<forall>c\<in>set L. \<not> is_space c)
            \<longrightarrow> parse_log_entry strptime L TIMESTAMP_FORMATS = Inr (None, L))"
proof -
  have T: "split_first L = L" using assms by (rule split_first_no_space)
  show ?thesis
  proof (intro conjI impI)
    assume "\<forall>g\<in>set G. sp L g = Inl ValueError \<or> sp L g = Inl IndexError"
    then show "parse_log_entry sp L G = Inr (None, L)"
      using parse_all_fail[of G sp L] T by simp
  next
    assume a: "(\<forall>g\<in>set pre. sp L g = Inl ValueError \<or> sp L g = Inl IndexError) \<and> sp L f = Inr dt"
    then have "parse_log_entry sp L (pre @ f # post) = parse_log_entry sp L (f # post)"
      using parse_skips_failures[of pre sp L "f # post"] T by simp
    then show "parse_log_entry sp L (pre @ f # post) = Inr (Some dt, [])"
      using a T by (simp add: Let_def strip_def)
  next
    assume "\<forall>c\<in>set L. \<not> is_space c"
    then show "parse_log_entry strptime L TIMESTAMP_FORMATS = Inr (None, L)"
      using parse_default_needs_space[of L] T by simp
  qed
qed

theorem single_word_line_witness:
  "CHR '' '' \<notin> set ''2024-01-15''
   \<and> strptime ''2024-01-15'' ''%Y/%m/%d'' = Inl ValueError
   \<and> parse_log_entry strptime ''2024-01-15'' [''%Y/%m/%d''] = Inr (None, ''2024-01-15'')
   \<and> strptime ''2024-01-15'' ''%Y-%m-%d''
       = Inr \<lparr>year = 2024, month = 1, day = 15, hour = 0, minute = 0, second = 0, microsecond = 0\<rparr>
   \<and> parse_log_entry strptime ''2024-01-15'' [''%Y/%m/%d'', ''%Y-%m-%d'', ''%Y'']
       = Inr (Some \<lparr>year = 2024, month = 1, day = 15, hour = 0, minute = 0, second = 0,
                     microsecond = 0\<rparr>, [])
   \<and> list_all (\<lambda>c. \<not> is_space c) ''2024-01-15''
   \<and> parse_log_entry strptime ''2024-01-15'' TIMESTAMP_FORMATS = Inr (None, ''2024-01-15'')"
proof -
  have h0: "CHR '' '' \<notin> set ''2024-01-15''"
    by simp
  have f1: "strptime ''2024-01-15'' ''%Y/%m/%d'' = Inl ValueError"
    by code_simp
  have h1: "\<forall>g\<in>set [''%Y/%m/%d'']. strptime ''2024-01-15'' g = Inl ValueError
         \<or> strptime ''2024-01-15'' g = Inl IndexError"
    using f1 by simp
  have h2: "strptime ''2024-01-15'' ''%Y-%m-%d''
       = Inr \<lparr>year = 2024, month = 1, day = 15, hour = 0, minute = 0, second = 0, microsecond = 0\<rparr>"
    by code_simp
  have f3: "list_all (\<lambda>c. \<not> is_space c) ''2024-01-15''"
    by code_simp
  then have h3: "\<forall>c\<in>set ''2024-01-15''. \<not> is_space c"
    by (simp only: list_all_iff)
  note t = single_word_line[OF h0, where sp = strptime and G = "[''%Y/%m/%d'']"
      and pre = "[''%Y/%m/%d'']" and f = "''%Y-%m-%d''" and post = "[''%Y'']"
      and dt = "\<lparr>year = 2024, month = 1, day = 15, hour = 0, minute = 0, second = 0,
                  microsecond = 0\<rparr>"]
  have c1: "parse_log_entry strptime ''2024-01-15'' [''%Y/%m/%d''] = Inr (None, ''2024-01-15'')"
    using t h1 by blast
  have c2: "parse_log_entry strptime ''2024-01-15'' ([''%Y/%m/%d''] @ ''%Y-%m-%d'' # [''%Y''])
       = Inr (Some \<lparr>year = 2024, month = 1, day = 15, hour = 0, minute = 0, second = 0,
                     microsecond = 0\<rparr>, [])"
    using t h1 h2 by blast
  have c3: "parse_log_entry strptime ''2024-01-15'' TIMESTAMP_FORMATS = Inr (None, ''2024-01-15'')"
    using t h3 by blast
  show ?thesis using h0 f1 h2 f3 c1 c2 c3 by simp
qed

theorem single_word_line_counterexample:
  "CHR '' '' \<notin> set ''2024-01-15''
   \<and> list_all (\<lambda>c. \<not> is_space c) ''2024-01-15''
   \<and> parse_log_entry strptime ''2024-01-15'' [''%Y-%m-%d'']
       = Inr (Some \<lparr>year = 2024, month = 1, day = 15, hour = 0, minute = 0, second = 0,
                     microsecond = 0\<rparr>, [])
   \<and> parse_log_entry strptime ''2024-01-15'' [''%Y-%m-%d''] \<noteq> Inr (None, ''2024-01-15'')"
  by code_simp

section \<open>The keyword filter\<close>

lemma read_lines_empty_keywords:
  "fst (snd (read_lines sp p fmts (Some []) ls (evs, st))) = evs"
  by (induction ls arbitrary: st) (auto simp: Let_def split: sum.splits option.splits prod.splits)

text \<open>
  C10. With a keyword list that is present and has no element, \<^verbatim>\<open>any\<close> over it is false
  and \<^verbatim>\<open>keywords is None\<close> is false too: whatever the file holds, \<open>process_log_file\<close>
  returns no event.
\<close>

theorem empty_keyword_list_rejects_all:
  "fst (process_log_file sp w p fmts (Some []) st) = []"
proof (cases "open_file w p")
  case (Inl e)
  then show ?thesis by (simp add: process_log_file_def)
next
  case (Inr lf)
  obtain ls fault where lf: "lf = (ls, fault)" by (cases lf)
  obtain r evs st2 where
    rl: "read_lines sp p fmts (Some []) ls ([], st\<lparr>opened := opened st @ [p]\<rparr>) = (r, evs, st2)"
    by (metis prod_cases3)
  have "evs = []"
    using read_lines_empty_keywords[of sp p fmts ls "[]" "st\<lparr>opened := opened st @ [p]\<rparr>"] rl
    by simp
  then show ?thesis using Inr lf rl
    by (simp add: process_log_file_def split: option.splits)
qed

text \<open>
  C5. A line that is not blank and parses to the timestamp \<open>dt\<close> and the description \<open>d\<close>
  adds its event to the collected events exactly when the keyword list is absent, or
  some keyword of the list, lower-cased, is a substring of the lower-cased description;
  the loop then goes on with the remaining lines. So an absent list keeps the event, and so
  does a list that holds the empty string.
\<close>

theorem keyword_filter:
  assumes "strip raw \<noteq> []" and "parse_log_entry sp (strip raw) fmts = Inr (Some dt, d)"
  shows "read_lines sp p fmts kws (raw # rest) (evs, st) =
           read_lines sp p fmts kws rest
             (if (case kws of
                    None \<Rightarrow> True
                  | Some ks \<Rightarrow> \<exists>k\<in>set ks. \<exists>ps ss. lower d = ps @ lower k @ ss)
              then evs @ [\<lparr>timestamp = dt, description = d, source = p\<rparr>] else evs, st)
         \<and> read_lines sp p fmts None (raw # rest) (evs, st) =
             read_lines sp p fmts None rest
               (evs @ [\<lparr>timestamp = dt, description = d, source = p\<rparr>], st)
         \<and> ([] \<in> set ks \<longrightarrow>
              read_lines sp p fmts (Some ks) (raw # rest) (evs, st) =
                read_lines sp p fmts (Some ks) rest
                  (evs @ [\<lparr>timestamp = dt, description = d, source = p\<rparr>], st))"
proof (intro conjI impI)
  show "read_lines sp p fmts kws (raw # rest) (evs, st) =
           read_lines sp p fmts kws rest
             (if (case kws of
                    None \<Rightarrow> True
                  | Some ks \<Rightarrow> \<exists>k\<in>set ks. \<exists>ps ss. lower d = ps @ lower k @ ss)
              then evs @ [\<lparr>timestamp = dt, description = d, source = p\<rparr>] else evs, st)"
    using assms by (cases kws) (auto simp: Let_def list_ex_iff contains_iff)
next
  show "read_lines sp p fmts None (raw # rest) (evs, st) =
          read_lines sp p fmts None rest
            (evs @ [\<lparr>timestamp = dt, description = d, source = p\<rparr>], st)"
    using assms by (simp add: Let_def)
next
  assume "[] \<in> set ks"
  moreover have "lower d = [] @ lower [] @ lower d"
    by (simp add: lower_def)
  then have "contains (lower d) (lower [])"
    unfolding contains_iff by blast
  ultimately have "list_ex (\<lambda>keyword. contains (lower d) (lower keyword)) ks"
    unfolding list_ex_iff by blast
  then show "read_lines sp p fmts (Some ks) (raw # rest) (evs, st) =
          read_lines sp p fmts (Some ks) rest
            (evs @ [\<lparr>timestamp = dt, description = d, source = p\<rparr>], st)"
    using assms by (simp add: Let_def)
qed

theorem keyword_filter_witness:
  "strip ''2024-01-15 Network ERROR occurred'' \<noteq> []
   \<and> parse_log_entry strptime (strip ''2024-01-15 Network ERROR occurred'') [''%Y-%m-%d'']
       = Inr (Some \<lparr>year = 2024, month = 1, day = 15, hour = 0, minute = 0, second = 0,
                     microsecond = 0\<rparr>, ''Network ERROR occurred'')
   \<and> read_lines strptime ''a.log'' [''%Y-%m-%d''] (Some [''error''])
         [''2024-01-15 Network ERROR occurred''] ([], start)
       = (None, [\<lparr>timestamp = \<lparr>year = 2024, month = 1, day = 15, hour = 0, minute = 0,
                                 second = 0, microsecond = 0\<rparr>,
                    description = ''Network ERROR occurred'', source = ''a.log''\<rparr>], start)"
proof -
  have h1: "strip ''2024-01-15 Network ERROR occurred'' \<noteq> []"
    by code_simp
  have h2: "parse_log_entry strptime (strip ''2024-01-15 Network ERROR occurred'') [''%Y-%m-%d'']
       = Inr (Some \<lparr>year = 2024, month = 1, day = 15, hour = 0, minute = 0, second = 0,
                     microsecond = 0\<rparr>, ''Network ERROR occurred'')"
    by code_simp
  have "contains (lower ''Network ERROR occurred'') (lower ''error'')"
    by code_simp
  then have h3: "\<exists>ps ss. lower ''Network ERROR occurred'' = ps @ lower ''error'' @ ss"
    by (simp only: contains_iff)
  show ?thesis
    using h1 h2 h3
      keyword_filter[OF h1 h2, of "''a.log''" "Some [''error'']" "[]" "[]" start "[]"]
    by simp
qed

section \<open>The minimum priority\<close>

text \<open>
  C9. Two runs whose arguments differ in the priority name only, both names being keys of
  \<open>EVENT_PRIORITIES\<close>, have the same effects: the same log, the same files opened, the
  same table written. The level looked up is never compared with anything.
\<close>

theorem priority_irrelevant:
  assumes "p1 \<in> set (map fst EVENT_PRIORITIES)" and "p2 \<in> set (map fst EVENT_PRIORITIES)"
  shows "main sp srt w (a\<lparr>priority := p1\<rparr>) = main sp srt w (a\<lparr>priority := p2\<rparr>)"
proof -
  obtain n1 where n1: "map_of EVENT_PRIORITIES p1 = Some n1"
    using assms(1) by (metis map_of_eq_None_iff not_None_eq set_map)
  obtain n2 where n2: "map_of EVENT_PRIORITIES p2 = Some n2"
    using assms(2) by (metis map_of_eq_None_iff not_None_eq set_map)
  show ?thesis
    unfolding main_def Let_def using n1 n2
    by (simp split: option.splits list.splits prod.splits)
qed

theorem priority_irrelevant_witness:
  "''critical'' \<in> set (map fst EVENT_PRIORITIES) \<and> ''info'' \<in> set (map fst EVENT_PRIORITIES)
   \<and> main strptime sort_by_timestamp demo_world (demo_args\<lparr>priority := ''critical''\<rparr>)
     = main strptime sort_by_timestamp demo_world (demo_args\<lparr>priority := ''info''\<rparr>)"
proof -
  have h1: "''critical'' \<in> set (map fst EVENT_PRIORITIES)"
    by (simp add: EVENT_PRIORITIES_def)
  have h2: "''info'' \<in> set (map fst EVENT_PRIORITIES)"
    by (simp add: EVENT_PRIORITIES_def)
  show ?thesis
    using h1 h2 priority_irrelevant[OF h1 h2, of strptime sort_by_timestamp demo_world demo_args]
    by simp
qed

section \<open>Reading a file\<close>

lemma read_lines_events:
  "read_lines sp p fmts kws ls (evs, st) = (r, evs', st') \<Longrightarrow>
     \<exists>new. evs' = evs @ new
       \<and> length new \<le> length (filter (recognized sp fmts) ls)
       \<and> (\<forall>e\<in>set new. \<exists>raw\<in>set ls. strip raw \<noteq> []
             \<and> parse_log_entry sp (strip raw) fmts = Inr (Some (timestamp e), description e)
             \<and> source e = p)"
proof (induction ls arbitrary: evs st)
  case Nil
  then show ?case by simp
next
  case (Cons raw ls)
  show ?case
  proof (cases "strip raw = []")
    case True
    with Cons.prems have "read_lines sp p fmts kws ls (evs, st) = (r, evs', st')"
      by (simp add: Let_def)
    from Cons.IH[OF this] show ?thesis
      by (auto simp: recognized_def True)
  next
    case False
    show ?thesis
    proof (cases "parse_log_entry sp (strip raw) fmts")
      case (Inl e)
      with False Cons.prems have "evs' = evs" by (simp add: Let_def)
      then show ?thesis by simp
    next
      case (Inr res)
      obtain dto d where res: "res = (dto, d)" by (cases res)
      show ?thesis
      proof (cases dto)
        case None
        with False Inr res Cons.prems
        have "read_lines sp p fmts kws ls (evs, log (Warning_unparsed (strip raw) p) st)
                = (r, evs', st')"
          by (simp add: Let_def)
        from Cons.IH[OF this] obtain new where
          n: "evs' = evs @ new" "length new \<le> length (filter (recognized sp fmts) ls)"
             "\<forall>e\<in>set new. \<exists>raw\<in>set ls. strip raw \<noteq> []
                \<and> parse_log_entry sp (strip raw) fmts = Inr (Some (timestamp e), description e)
                \<and> source e = p"
          by blast
        have "\<not> recognized sp fmts raw" using Inr res None by (simp add: recognized_def)
        then show ?thesis using n by auto
      next
        case (Some dt)
        have rec: "recognized sp fmts raw"
          using False Inr res Some by (simp add: recognized_def)
        let ?ev = "\<lparr>timestamp = dt, description = d, source = p\<rparr>"
        consider
          (keep) "read_lines sp p fmts kws ls (evs @ [?ev], st) = (r, evs', st')"
        | (drop) "read_lines sp p fmts kws ls (evs, st) = (r, evs', st')"
          using False Inr res Some Cons.prems by (simp add: Let_def split: if_splits)
        then show ?thesis
        proof cases
          case keep
          from Cons.IH[OF this] obtain new where
            n: "evs' = (evs @ [?ev]) @ new"
               "length new \<le> length (filter (recognized sp fmts) ls)"
               "\<forall>e\<in>set new. \<exists>raw\<in>set ls. strip raw \<noteq> []
                  \<and> parse_log_entry sp (strip raw) fmts = Inr (Some (timestamp e), description e)
                  \<and> source e = p"
            by blast
          have "evs' = evs @ (?ev # new)" using n(1) by simp
          moreover have "length (?ev # new) \<le> length (filter (recognized sp fmts) (raw # ls))"
            using n(2) rec by simp
          moreover have "\<forall>e\<in>set (?ev # new). \<exists>x\<in>set (raw # ls). strip x \<noteq> []
                  \<and> parse_log_entry sp (strip x) fmts = Inr (Some (timestamp e), description e)
                  \<and> source e = p"
            using n(3) False Inr res Some by auto
          ultimately show ?thesis by blast
        next
          case drop
          from Cons.IH[OF this] obtain new where
            n: "evs' = evs @ new" "length new \<le> length (filter (recognized sp fmts) ls)"
               "\<forall>e\<in>set new. \<exists>raw\<in>set ls. strip raw \<noteq> []
                  \<and> parse_log_entry sp (strip raw) fmts = Inr (Some (timestamp e), description e)
                  \<and> source e = p"
            by blast
          then show ?thesis using rec by auto
        qed
      qed
    qed
  qed
qed

lemma read_lines_logged_prefix:
  "read_lines sp p fmts kws ls (evs, st) = (r, evs', st') \<Longrightarrow> \<exists>ws. logged st' = logged st @ ws"
proof (induction ls arbitrary: evs st)
  case Nil
  then show ?case by simp
next
  case (Cons raw ls)
  then show ?case
    by (fastforce simp: Let_def log_def split: if_splits sum.splits option.splits prod.splits)
qed

lemma read_lines_warns:
  "read_lines sp p fmts kws ls (evs, st) = (None, evs', st') \<Longrightarrow> raw \<in> set ls \<Longrightarrow>
   strip raw \<noteq> [] \<Longrightarrow> parse_log_entry sp (strip raw) fmts = Inr (None, d) \<Longrightarrow>
   Warning_unparsed (strip raw) p \<in> set (logged st')"
proof (induction ls arbitrary: evs st)
  case Nil
  then show ?case by simp
next
  case (Cons x ls)
  show ?case
  proof (cases "raw = x")
    case True
    with Cons.prems
    have "read_lines sp p fmts kws ls (evs, log (Warning_unparsed (strip raw) p) st)
            = (None, evs', st')"
      by (simp add: Let_def)
    from read_lines_logged_prefix[OF this] show ?thesis by (auto simp: log_def)
  next
    case False
    then have "raw \<in> set ls" using Cons.prems(2) by simp
    moreover obtain evs0 st0 where "read_lines sp p fmts kws ls (evs0, st0) = (None, evs', st')"
      using Cons.prems(1)
      by (auto simp: Let_def split: if_splits sum.splits option.splits prod.splits)
    ultimately show ?thesis using Cons.IH Cons.prems(3,4) by blast
  qed
qed

lemma read_lines_no_exception:
  "\<forall>x\<in>set ls. \<forall>e. parse_log_entry sp (strip x) fmts \<noteq> Inl e
   \<Longrightarrow> fst (read_lines sp p fmts kws ls (evs, st)) = None"
  by (induction ls arbitrary: evs st)
     (auto simp: Let_def split: sum.splits option.splits prod.splits)

lemma process_log_file_open:
  assumes "open_file w p = Inr (ls, fault)"
  shows "\<exists>r st2. read_lines sp p fmts kws ls ([], st\<lparr>opened := opened st @ [p]\<rparr>)
                  = (r, fst (process_log_file sp w p fmts kws st), st2)
          \<and> (\<exists>ws. logged (snd (process_log_file sp w p fmts kws st)) = logged st2 @ ws)"
proof -
  obtain r evs st2 where
    rl: "read_lines sp p fmts kws ls ([], st\<lparr>opened := opened st @ [p]\<rparr>) = (r, evs, st2)"
    by (metis prod_cases3)
  then show ?thesis using assms
    by (cases r; cases fault) (auto simp: process_log_file_def handler_def log_def)
qed

lemma process_log_file_closed:
  assumes "open_file w p = Inl e"
  shows "fst (process_log_file sp w p fmts kws st) = []"
  using assms by (simp add: process_log_file_def)

text \<open>
  C3. Every event that \<open>process_log_file\<close> returns comes from a line of the file that is not
  blank and on which \<open>parse_log_entry\<close> recognized the event's timestamp and description; the
  file gives at most as many events as it has recognized lines. A line that is not blank
  and on which no timestamp is recognized is reported by a warning in the log (when no line
  of the file makes the parser raise, so that the loop reaches every line).
\<close>

theorem events_only_from_recognized_lines:
  "(\<forall>e\<in>set (fst (process_log_file sp w p fmts kws st)).
      \<exists>ls fault. open_file w p = Inr (ls, fault)
        \<and> (\<exists>raw\<in>set ls. strip raw \<noteq> []
              \<and> parse_log_entry sp (strip raw) fmts = Inr (Some (timestamp e), description e)
              \<and> source e = p))
   \<and> (open_file w p = Inr (ls, fault)
        \<longrightarrow> length (fst (process_log_file sp w p fmts kws st))
              \<le> length (filter (recognized sp fmts) ls))
   \<and> (open_file w p = Inr (ls, fault) \<and> raw \<in> set ls \<and> strip raw \<noteq> []
        \<and> parse_log_entry sp (strip raw) fmts = Inr (None, d)
        \<and> (\<forall>x\<in>set ls. \<forall>e. parse_log_entry sp (strip x) fmts \<noteq> Inl e)
        \<longrightarrow> Warning_unparsed (strip raw) p
              \<in> set (logged (snd (process_log_file sp w p fmts kws st))))"
proof (intro conjI impI ballI)
  fix e
  assume e: "e \<in> set (fst (process_log_file sp w p fmts kws st))"
  show "\<exists>ls fault. open_file w p = Inr (ls, fault)
        \<and> (\<exists>raw\<in>set ls. strip raw \<noteq> []
              \<and> parse_log_entry sp (strip raw) fmts = Inr (Some (timestamp e), description e)
              \<and> source e = p)"
  proof (cases "open_file w p")
    case (Inl x)
    then show ?thesis using e process_log_file_closed[of w p x sp fmts kws st] by simp
  next
    case (Inr lf)
    obtain ls' fault' where lf: "open_file w p = Inr (ls', fault')" using Inr by (cases lf) simp
    from process_log_file_open[OF lf, of sp fmts kws st] obtain r st2 where
      "read_lines sp p fmts kws ls' ([], st\<lparr>opened := opened st @ [p]\<rparr>)
         = (r, fst (process_log_file sp w p fmts kws st), st2)"
      by blast
    from read_lines_events[OF this] e lf show ?thesis by auto
  qed
next
  assume lf: "open_file w p = Inr (ls, fault)"
  from process_log_file_open[OF lf, of sp fmts kws st] obtain r st2 where
    "read_lines sp p fmts kws ls ([], st\<lparr>opened := opened st @ [p]\<rparr>)
       = (r, fst (process_log_file sp w p fmts kws st), st2)"
    by blast
  from read_lines_events[OF this]
  show "length (fst (process_log_file sp w p fmts kws st))
          \<le> length (filter (recognized sp fmts) ls)"
    by auto
next
  assume a: "open_file w p = Inr (ls, fault) \<and> raw \<in> set ls \<and> strip raw \<noteq> []
        \<and> parse_log_entry sp (strip raw) fmts = Inr (None, d)
        \<and> (\<forall>x\<in>set ls. \<forall>e. parse_log_entry sp (strip x) fmts \<noteq> Inl e)"
  then have lf: "open_file w p = Inr (ls, fault)" by simp
  from process_log_file_open[OF lf, of sp fmts kws st] obtain r st2 ws where
    rl: "read_lines sp p fmts kws ls ([], st\<lparr>opened := opened st @ [p]\<rparr>)
       = (r, fst (process_log_file sp w p fmts kws st), st2)"
    and lg: "logged (snd (process_log_file sp w p fmts kws st)) = logged st2 @ ws"
    by blast
  have "r = None"
    using read_lines_no_exception[of ls sp fmts p kws "[]" "st\<lparr>opened := opened st @ [p]\<rparr>"] a rl
    by simp
  with rl a have "Warning_unparsed (strip raw) p \<in> set (logged st2)"
    using read_lines_warns by blast
  then show "Warning_unparsed (strip raw) p
              \<in> set (logged (snd (process_log_file sp w p fmts kws st)))"
    using lg by simp
qed

theorem events_only_from_recognized_lines_witness:
  "open_file demo_world ''a.log'' = Inr ([''2024-01-15 boot'', ''garbage line''], None)
   \<and> ''garbage line'' \<in> set [''2024-01-15 boot'', ''garbage line'']
   \<and> strip ''garbage line'' \<noteq> []
   \<and> parse_log_entry strptime (strip ''garbage line'') [''%Y-%m-%d'']
       = Inr (None, ''garbage line'')
   \<and> parse_log_entry strptime (strip ''2024-01-15 boot'') [''%Y-%m-%d'']
       = Inr (Some \<lparr>year = 2024, month = 1, day = 15, hour = 0, minute = 0, second = 0,
                     microsecond = 0\<rparr>, ''boot'')
   \<and> fst (process_log_file strptime demo_world ''a.log'' [''%Y-%m-%d''] None start)
       = [\<lparr>timestamp = \<lparr>year = 2024, month = 1, day = 15, hour = 0, minute = 0, second = 0,
                          microsecond = 0\<rparr>, description = ''boot'', source = ''a.log''\<rparr>]
   \<and> (\<exists>ls fault. open_file demo_world ''a.log'' = Inr (ls, fault)
          \<and> (\<exists>raw\<in>set ls. strip raw \<noteq> []
                \<and> parse_log_entry strptime (strip raw) [''%Y-%m-%d'']
                    = Inr (Some \<lparr>year = 2024, month = 1, day = 15, hour = 0, minute = 0,
                                  second = 0, microsecond = 0\<rparr>, ''boot'')))
   \<and> length (fst (process_log_file strptime demo_world ''a.log'' [''%Y-%m-%d''] None start))
       \<le> length (filter (recognized strptime [''%Y-%m-%d''])
                   [''2024-01-15 boot'', ''garbage line''])
   \<and> Warning_unparsed (strip ''garbage line'') ''a.log''
       \<in> set (logged (snd (process_log_file strptime demo_world ''a.log'' [''%Y-%m-%d'']
                               None start)))"
proof -
  have h1: "open_file demo_world ''a.log'' = Inr ([''2024-01-15 boot'', ''garbage line''], None)"
    by code_simp
  have h2: "''garbage line'' \<in> set [''2024-01-15 boot'', ''garbage line'']"
    by simp
  have h3: "strip ''garbage line'' \<noteq> []"
    by code_simp
  have h4: "parse_log_entry strptime (strip ''garbage line'') [''%Y-%m-%d'']
       = Inr (None, ''garbage line'')"
    by code_simp
  have p1: "parse_log_entry strptime (strip ''2024-01-15 boot'') [''%Y-%m-%d'']
       = Inr (Some \<lparr>year = 2024, month = 1, day = 15, hour = 0, minute = 0, second = 0,
                     microsecond = 0\<rparr>, ''boot'')"
    by code_simp
  have h5: "\<forall>x\<in>set [''2024-01-15 boot'', ''garbage line''].
         \<forall>e. parse_log_entry strptime (strip x) [''%Y-%m-%d''] \<noteq> Inl e"
    using h4 p1 by simp
  have h6: "fst (process_log_file strptime demo_world ''a.log'' [''%Y-%m-%d''] None start)
       = [\<lparr>timestamp = \<lparr>year = 2024, month = 1, day = 15, hour = 0, minute = 0, second = 0,
                          microsecond = 0\<rparr>, description = ''boot'', source = ''a.log''\<rparr>]"
    by code_simp
  note t = events_only_from_recognized_lines[where sp = strptime and w = demo_world
      and p = "''a.log''" and fmts = "[''%Y-%m-%d'']" and kws = None and st = start
      and ls = "[''2024-01-15 boot'', ''garbage line'']" and fault = None
      and raw = "''garbage line''" and d = "''garbage line''"]
  have "\<forall>e\<in>set (fst (process_log_file strptime demo_world ''a.log'' [''%Y-%m-%d''] None start)).
        \<exists>ls fault. open_file demo_world ''a.log'' = Inr (ls, fault)
          \<and> (\<exists>raw\<in>set ls. strip raw \<noteq> []
                \<and> parse_log_entry strptime (strip raw) [''%Y-%m-%d'']
                    = Inr (Some (timestamp e), description e)
                \<and> source e = ''a.log'')"
    using t by (rule conjunct1)
  then have c1: "\<exists>ls fault. open_file demo_world ''a.log'' = Inr (ls, fault)
          \<and> (\<exists>raw\<in>set ls. strip raw \<noteq> []
                \<and> parse_log_entry strptime (strip raw) [''%Y-%m-%d'']
                    = Inr (Some \<lparr>year = 2024, month = 1, day = 15, hour = 0, minute = 0,
                                  second = 0, microsecond = 0\<rparr>, ''boot''))"
    unfolding h6 by simp
  have c2: "length (fst (process_log_file strptime demo_world ''a.log'' [''%Y-%m-%d''] None start))
       \<le> length (filter (recognized strptime [''%Y-%m-%d''])
                   [''2024-01-15 boot'', ''garbage line''])"
    using t h1 by blast
  have c3: "Warning_unparsed (strip ''garbage line'') ''a.log''
       \<in> set (logged (snd (process_log_file strptime demo_world ''a.log'' [''%Y-%m-%d'']
                               None start)))"
    using t h1 h2 h3 h4 h5 by blast
  show ?thesis
    using h1 h2 h3 h4 p1 h6 c1 c2 c3 by (intro conjI)
qed

text \<open>
  C7, as amended. When the reading of a file breaks off with an exception after the lines
  \<open>ls\<close>, \<open>process_log_file\<close> returns the events of those lines, the same events as for a
  file that ends after \<open>ls\<close>, and the log ends with the report of an exception. When the
  file cannot be opened, it returns no event and the report. In both cases the loop of
  \<open>main\<close> goes on with the remaining files.
\<close>

theorem read_failure_keeps_earlier_events:
  "(files w p = Regular None ls (Some e)
     \<longrightarrow> fst (process_log_file sp w p fmts kws st)
           = fst (process_log_file sp (w\<lparr>files := (files w)(p := Regular None ls None)\<rparr>)
                    p fmts kws st)
         \<and> (\<exists>e' pre. logged (snd (process_log_file sp w p fmts kws st))
               = pre @ [if e' = FileNotFoundError then Error_not_found p
                        else Error_processing p e']))
   \<and> (files w p = Regular (Some e) ls fault
     \<longrightarrow> process_log_file sp w p fmts kws st
           = ([], handler p e (st\<lparr>opened := opened st @ [p]\<rparr>)))
   \<and> process_all sp w fmts kws (p # rest) (acc, st)
       = process_all sp w fmts kws rest
           (acc @ fst (process_log_file sp w p fmts kws st),
            snd (process_log_file sp w p fmts kws st))"
proof (intro conjI impI)
  assume f: "files w p = Regular None ls (Some e)"
  let ?w' = "w\<lparr>files := (files w)(p := Regular None ls None)\<rparr>"
  obtain r evs st2 where
    rl: "read_lines sp p fmts kws ls ([], st\<lparr>opened := opened st @ [p]\<rparr>) = (r, evs, st2)"
    by (metis prod_cases3)
  have o1: "open_file w p = Inr (ls, Some e)" using f by (simp add: open_file_def)
  have o2: "open_file ?w' p = Inr (ls, None)" by (simp add: open_file_def)
  show "fst (process_log_file sp w p fmts kws st) = fst (process_log_file sp ?w' p fmts kws st)"
    using o1 o2 rl by (cases r) (simp_all add: process_log_file_def)
  show "\<exists>e' pre. logged (snd (process_log_file sp w p fmts kws st))
               = pre @ [if e' = FileNotFoundError then Error_not_found p
                        else Error_processing p e']"
  proof (cases r)
    case None
    then have "logged (snd (process_log_file sp w p fmts kws st))
                 = logged st2 @ [if e = FileNotFoundError then Error_not_found p
                                 else Error_processing p e]"
      using o1 rl by (simp add: process_log_file_def handler_def log_def)
    then show ?thesis by blast
  next
    case (Some x)
    then have "logged (snd (process_log_file sp w p fmts kws st))
                 = logged st2 @ [if x = FileNotFoundError then Error_not_found p
                                 else Error_processing p x]"
      using o1 rl by (simp add: process_log_file_def handler_def log_def)
    then show ?thesis by blast
  qed
next
  assume "files w p = Regular (Some e) ls fault"
  then have "open_file w p = Inl e" by (simp add: open_file_def)
  then show "process_log_file sp w p fmts kws st
           = ([], handler p e (st\<lparr>opened := opened st @ [p]\<rparr>))"
    by (simp add: process_log_file_def)
next
  show "process_all sp w fmts kws (p # rest) (acc, st)
       = process_all sp w fmts kws rest
           (acc @ fst (process_log_file sp w p fmts kws st),
            snd (process_log_file sp w p fmts kws st))"
    by (simp split: prod.splits)
qed

theorem read_failure_keeps_earlier_events_witness:
  "files demo_world ''b.log'' = Regular None [''2024-01-16 disk ok''] (Some OSError)
   \<and> fst (process_log_file strptime demo_world ''b.log'' [''%Y-%m-%d''] None start)
       = fst (process_log_file strptime
                (demo_world\<lparr>files := (files demo_world)
                    (''b.log'' := Regular None [''2024-01-16 disk ok''] None)\<rparr>)
                ''b.log'' [''%Y-%m-%d''] None start)
   \<and> (\<exists>e' pre. logged (snd (process_log_file strptime demo_world ''b.log'' [''%Y-%m-%d''] None
                                start))
         = pre @ [if e' = FileNotFoundError then Error_not_found ''b.log''
                  else Error_processing ''b.log'' e'])
   \<and> files demo_world ''c.log'' = Regular (Some PermissionError) [] None
   \<and> process_log_file strptime demo_world ''c.log'' [''%Y-%m-%d''] None start
       = ([], handler ''c.log'' PermissionError (start\<lparr>opened := opened start @ [''c.log'']\<rparr>))"
proof -
  have h1: "files demo_world ''b.log'' = Regular None [''2024-01-16 disk ok''] (Some OSError)"
    by (simp add: demo_world_def)
  have h2: "files demo_world ''c.log'' = Regular (Some PermissionError) [] None"
    by (simp add: demo_world_def)
  note t1 = read_failure_keeps_earlier_events[where sp = strptime and w = demo_world
      and p = "''b.log''" and ls = "[''2024-01-16 disk ok'']" and e = OSError
      and fmts = "[''%Y-%m-%d'']" and kws = None and st = start]
  note t2 = read_failure_keeps_earlier_events[where sp = strptime and w = demo_world
      and p = "''c.log''" and ls = "[]" and e = PermissionError and fault = None
      and fmts = "[''%Y-%m-%d'']" and kws = None and st = start]
  have c1: "fst (process_log_file strptime demo_world ''b.log'' [''%Y-%m-%d''] None start)
       = fst (process_log_file strptime
                (demo_world\<lparr>files := (files demo_world)
                    (''b.log'' := Regular None [''2024-01-16 disk ok''] None)\<rparr>)
                ''b.log'' [''%Y-%m-%d''] None start)"
    using t1 h1 by blast
  have c2: "\<exists>e' pre. logged (snd (process_log_file strptime demo_world ''b.log'' [''%Y-%m-%d''] None
                                start))
         = pre @ [if e' = FileNotFoundError then Error_not_found ''b.log''
                  else Error_processing ''b.log'' e']"
    using t1 h1 by blast
  have c3: "process_log_file strptime demo_world ''c.log'' [''%Y-%m-%d''] None start
       = ([], handler ''c.log'' PermissionError (start\<lparr>opened := opened start @ [''c.log'']\<rparr>))"
    using t2 h2 by blast
  show ?thesis
    using h1 h2 c1 c2 c3 by (intro conjI)
qed

theorem read_failure_keeps_earlier_events_counterexample:
  "files demo_world ''b.log'' = Regular None [''2024-01-16 disk ok''] (Some OSError)
   \<and> process_log_file strptime demo_world ''b.log'' [''%Y-%m-%d''] None start
       = ([\<lparr>timestamp = \<lparr>year = 2024, month = 1, day = 16, hour = 0, minute = 0, second = 0,
                          microsecond = 0\<rparr>, description = ''disk ok'', source = ''b.log''\<rparr>],
          \<lparr>logged = [Error_processing ''b.log'' OSError], opened = [''b.log''],
             written = None, uncaught = None\<rparr>)
   \<and> main strptime sort_by_timestamp demo_world demo_args
       = \<lparr>logged = [Warning_unparsed ''garbage line'' ''a.log'',
                    Error_processing ''b.log'' OSError, Info_saved ''timeline.csv''],
          opened = [''a.log'', ''b.log''],
          written = Some (''timeline.csv'', True,
            [\<lparr>timestamp = \<lparr>year = 2024, month = 1, day = 15, hour = 0, minute = 0, second = 0,
                           microsecond = 0\<rparr>, description = ''boot'', source = ''a.log''\<rparr>,
             \<lparr>timestamp = \<lparr>year = 2024, month = 1, day = 16, hour = 0, minute = 0, second = 0,
                           microsecond = 0\<rparr>, description = ''disk ok'', source = ''b.log''\<rparr>]),
          uncaught = None\<rparr>"
  by code_simp

section \<open>Missing input files\<close>

text \<open>
  C8, as amended. If some path of the argument list is not a file, \<open>main\<close> logs one error,
  for the first such path, and returns: no file has been opened, no event collected and no
  table written. It returns normally, so the status of the process is 0.
\<close>

theorem missing_file_stops_run:
  assumes "p \<in> set (log_files a)" and "\<not> isfile w p"
  shows "\<exists>bad\<in>set (log_files a). \<not> isfile w bad
           \<and> main sp srt w a
               = \<lparr>logged = [Error_invalid_path bad], opened = [], written = None,
                   uncaught = None\<rparr>
           \<and> exit_status (main sp srt w a) = 0"
proof -
  obtain bad where bad: "find (\<lambda>log_file. \<not> isfile w log_file) (log_files a) = Some bad"
    using assms by (cases "find (\<lambda>log_file. \<not> isfile w log_file) (log_files a)")
                   (auto simp: find_None_iff)
  then have "bad \<in> set (log_files a)" "\<not> isfile w bad"
    by (auto simp: find_Some_iff)
  moreover have "main sp srt w a
      = \<lparr>logged = [Error_invalid_path bad], opened = [], written = None, uncaught = None\<rparr>"
    using bad by (simp add: main_def log_def start_def)
  ultimately show ?thesis by (auto simp: exit_status_def)
qed

theorem missing_file_stops_run_witness:
  "''missing.log'' \<in> set (log_files (demo_args\<lparr>log_files := [''a.log'', ''missing.log'']\<rparr>))
   \<and> \<not> isfile demo_world ''missing.log''
   \<and> (\<exists>bad\<in>set (log_files (demo_args\<lparr>log_files := [''a.log'', ''missing.log'']\<rparr>)).
        \<not> isfile demo_world bad
        \<and> main strptime sort_by_timestamp demo_world
            (demo_args\<lparr>log_files := [''a.log'', ''missing.log'']\<rparr>)
            = \<lparr>logged = [Error_invalid_path bad], opened = [], written = None,
                uncaught = None\<rparr>
        \<and> exit_status (main strptime sort_by_timestamp demo_world
            (demo_args\<lparr>log_files := [''a.log'', ''missing.log'']\<rparr>)) = 0)"
proof -
  have h1: "''missing.log'' \<in> set (log_files (demo_args\<lparr>log_files := [''a.log'', ''missing.log'']\<rparr>))"
    by simp
  have h2: "\<not> isfile demo_world ''missing.log''"
    by (simp add: isfile_def demo_world_def)
  show ?thesis
    using h1 h2 missing_file_stops_run[OF h1 h2, of strptime sort_by_timestamp]
    by (intro conjI)
qed

theorem missing_file_stops_run_counterexample:
  "''missing.log'' \<in> set (log_files (demo_args\<lparr>log_files := [''a.log'', ''missing.log'']\<rparr>))
   \<and> \<not> isfile demo_world ''missing.log''
   \<and> exit_status (main strptime sort_by_timestamp demo_world
        (demo_args\<lparr>log_files := [''a.log'', ''missing.log'']\<rparr>)) = 0
   \<and> uncaught (main strptime sort_by_timestamp demo_world
        (demo_args\<lparr>log_files := [''a.log'', ''missing.log'']\<rparr>)) = None"
  by code_simp

end
